theory Spec2Isabelle
  imports Main
begin

section \<open>Session state store (frontend/src/context/game-state.tsx)\<close>

subsection \<open>Data model\<close>

text \<open>
  The interfaces of the source as records. Field names are those of the source; where two
  interfaces share a field name, or the name is a HOL constant, a suffix tells them apart.
  A nullable field (\<^verbatim>\<open>string | null\<close>) and an optional one are options.
\<close>

record Player =
  id_pl :: string
  nickname_pl :: string
  hasSubmitted :: "bool option"

record Verse =
  lyrics :: string
  image_vs :: string
  author :: string

record Song =
  title :: string
  cover :: string
  verses :: "Verse list"
  genre :: string
  shortGenre :: string
  url :: string

text \<open>The payload of the two drawing events: \<^verbatim>\<open>{ playerId, nickname, imageData }\<close>.\<close>

record Drawing =
  playerId_dr :: string
  nickname_dr :: string
  imageData_dr :: string

text \<open>An element of \<^verbatim>\<open>GameState.drawings\<close>.\<close>

record DrawingRecord =
  playerId_rec :: string
  nickname_rec :: string
  imageData_rec :: string
  submitted :: bool

record GameState =
  players :: "Player list"
  isAdmin :: bool
  playerId :: "string option"
  nickname :: string
  hasSubmittedDrawing :: bool
  waitingForOthersToSubmit :: bool
  isSubmittingDrawing :: bool
  submitError :: "string option"
  song :: "Song option"
  allPlayersSubmitted :: bool
  hasJoined :: bool
  joinError :: "string option"
  drawings :: "DrawingRecord list"

text \<open>
  \<^verbatim>\<open>Partial<GameState>\<close>: every field may be absent. \<open>None\<close> is an absent field,
  \<open>Some v\<close> a field present with value \<open>v\<close> (for a nullable field \<open>v\<close> is itself an option).
\<close>

record GameStateUpdates =
  players_u :: "Player list option"
  isAdmin_u :: "bool option"
  playerId_u :: "string option option"
  nickname_u :: "string option"
  hasSubmittedDrawing_u :: "bool option"
  waitingForOthersToSubmit_u :: "bool option"
  isSubmittingDrawing_u :: "bool option"
  submitError_u :: "string option option"
  song_u :: "Song option option"
  allPlayersSubmitted_u :: "bool option"
  hasJoined_u :: "bool option"
  joinError_u :: "string option option"
  drawings_u :: "DrawingRecord list option"

text \<open>The object literal \<^verbatim>\<open>{}\<close> at type \<^verbatim>\<open>Partial<GameState>\<close>.\<close>

definition no_updates :: GameStateUpdates where
  "no_updates = \<lparr>players_u = None, isAdmin_u = None, playerId_u = None, nickname_u = None,
     hasSubmittedDrawing_u = None, waitingForOthersToSubmit_u = None,
     isSubmittingDrawing_u = None, submitError_u = None, song_u = None,
     allPlayersSubmitted_u = None, hasJoined_u = None, joinError_u = None,
     drawings_u = None\<rparr>"

definition initialGameState :: GameState where
  "initialGameState = \<lparr>players = [], isAdmin = False, playerId = None, nickname = [],
     hasSubmittedDrawing = False, waitingForOthersToSubmit = False,
     isSubmittingDrawing = False, submitError = None, song = None,
     allPlayersSubmitted = False, hasJoined = False, joinError = None, drawings = []\<rparr>"

subsection \<open>The context accessor\<close>

text \<open>
  \<^verbatim>\<open>useContext\<close> of React: the value of the nearest enclosing provider, or the default the
  context was created with. The enclosing providers are a list, nearest first.
  \<^verbatim>\<open>SocketContext\<close> is created with default \<^verbatim>\<open>null\<close>, and a provider's value is an object,
  which is never falsy.
\<close>

datatype error = Error string

definition useContext :: "'c option \<Rightarrow> 'c list \<Rightarrow> 'c option" where
  "useContext dflt providers = (case providers of [] \<Rightarrow> dflt | v # _ \<Rightarrow> Some v)"

definition useGameState :: "'c list \<Rightarrow> error + 'c" where
  "useGameState providers =
     (let context = useContext None providers in
      case context of
        None \<Rightarrow> Inl (Error ''useGameState must be used within SocketProvider'')
      | Some c \<Rightarrow> Inr c)"

subsection \<open>State updates\<close>

text \<open>
  \<^verbatim>\<open>updateGameState(updates)\<close> is \<^verbatim>\<open>setGameState((prev) => ({ ...prev, ...updates }))\<close>:
  the fields present in \<open>updates\<close> replace those of \<open>prev\<close>, the others stay. React applies
  the queued updaters of one handler in the order of the calls, so a handler's effect on
  the state is the composition of its updaters.
\<close>

definition updateGameState :: "GameStateUpdates \<Rightarrow> GameState \<Rightarrow> GameState" where
  "updateGameState updates prev =
     \<lparr>players = (case players_u updates of None \<Rightarrow> players prev | Some v \<Rightarrow> v),
      isAdmin = (case isAdmin_u updates of None \<Rightarrow> isAdmin prev | Some v \<Rightarrow> v),
      playerId = (case playerId_u updates of None \<Rightarrow> playerId prev | Some v \<Rightarrow> v),
      nickname = (case nickname_u updates of None \<Rightarrow> nickname prev | Some v \<Rightarrow> v),
      hasSubmittedDrawing =
        (case hasSubmittedDrawing_u updates of None \<Rightarrow> hasSubmittedDrawing prev | Some v \<Rightarrow> v),
      waitingForOthersToSubmit =
        (case waitingForOthersToSubmit_u updates of
           None \<Rightarrow> waitingForOthersToSubmit prev | Some v \<Rightarrow> v),
      isSubmittingDrawing =
        (case isSubmittingDrawing_u updates of None \<Rightarrow> isSubmittingDrawing prev | Some v \<Rightarrow> v),
      submitError = (case submitError_u updates of None \<Rightarrow> submitError prev | Some v \<Rightarrow> v),
      song = (case song_u updates of None \<Rightarrow> song prev | Some v \<Rightarrow> v),
      allPlayersSubmitted =
        (case allPlayersSubmitted_u updates of None \<Rightarrow> allPlayersSubmitted prev | Some v \<Rightarrow> v),
      hasJoined = (case hasJoined_u updates of None \<Rightarrow> hasJoined prev | Some v \<Rightarrow> v),
      joinError = (case joinError_u updates of None \<Rightarrow> joinError prev | Some v \<Rightarrow> v),
      drawings = (case drawings_u updates of None \<Rightarrow> drawings prev | Some v \<Rightarrow> v)\<rparr>"

text \<open>
  \<^verbatim>\<open>Array.prototype.findIndex\<close>: the index of the first element that satisfies the
  predicate, \<open>-1\<close> when there is none.
\<close>

fun findIndex :: "('a \<Rightarrow> bool) \<Rightarrow> 'a list \<Rightarrow> int" where
  "findIndex P [] = - 1"
| "findIndex P (a # as) =
     (if P a then 0 else (let i = findIndex P as in if i = - 1 then - 1 else i + 1))"

text \<open>The object \<^verbatim>\<open>{ ...drawing, submitted: b }\<close>.\<close>

definition spread_submitted :: "Drawing \<Rightarrow> bool \<Rightarrow> DrawingRecord" where
  "spread_submitted drawing b =
     \<lparr>playerId_rec = playerId_dr drawing, nickname_rec = nickname_dr drawing,
      imageData_rec = imageData_dr drawing, submitted = b\<rparr>"

text \<open>The updater that the \<^verbatim>\<open>drawingSubmitted\<close> handler passes to \<^verbatim>\<open>setGameState\<close>.\<close>

definition drawingSubmitted_updater :: "Drawing \<Rightarrow> GameState \<Rightarrow> GameState" where
  "drawingSubmitted_updater drawing prev =
     (let existingIndex =
            findIndex (\<lambda>d. playerId_rec d = playerId_dr drawing) (drawings prev)
      in if existingIndex \<noteq> - 1
         then (let updatedDrawings =
                     (drawings prev)[nat existingIndex := spread_submitted drawing True]
               in prev\<lparr>drawings := updatedDrawings\<rparr>)
         else prev\<lparr>drawings := drawings prev @ [spread_submitted drawing True]\<rparr>)"

text \<open>The updater that the \<^verbatim>\<open>drawingUpdate\<close> handler passes to \<^verbatim>\<open>setGameState\<close>.\<close>

definition drawingUpdate_updater :: "Drawing \<Rightarrow> GameState \<Rightarrow> GameState" where
  "drawingUpdate_updater drawing prev =
     (let existingIndex =
            findIndex (\<lambda>d. playerId_rec d = playerId_dr drawing) (drawings prev)
      in if existingIndex \<noteq> - 1
         then (let updatedDrawings =
                     (drawings prev)[nat existingIndex :=
                        spread_submitted drawing
                          (submitted (drawings prev ! nat existingIndex))]
               in prev\<lparr>drawings := updatedDrawings\<rparr>)
         else prev\<lparr>drawings := drawings prev @ [spread_submitted drawing False]\<rparr>)"

subsection \<open>The client and its socket\<close>

text \<open>
  What the client sends: \<^verbatim>\<open>emit("joinLobby", { playerId, nickname })\<close>.
\<close>

datatype Outbound = JoinLobby string string

text \<open>
  The socket that \<^verbatim>\<open>joinGame\<close> creates (\<^verbatim>\<open>newSocket\<close>): whether the client has called
  \<^verbatim>\<open>disconnect()\<close> on it, and what has been emitted on it, oldest first.
\<close>

record Socket =
  disconnected :: bool
  emitted :: "Outbound list"

text \<open>
  The provider's state: the React state \<^verbatim>\<open>gameState\<close>, whether the React state \<^verbatim>\<open>socket\<close>
  is non-null, the socket the handlers are bound to, and the routes pushed to the router.
  Console output is not modelled.
\<close>

record Client =
  gameState :: GameState
  socket :: bool
  newSocket :: Socket
  pushed :: "string list"

definition setGameState :: "(GameState \<Rightarrow> GameState) \<Rightarrow> Client \<Rightarrow> Client" where
  "setGameState f c = c\<lparr>gameState := f (gameState c)\<rparr>"

definition emit :: "Outbound \<Rightarrow> Client \<Rightarrow> Client" where
  "emit m c = c\<lparr>newSocket := (newSocket c)\<lparr>emitted := emitted (newSocket c) @ [m]\<rparr>\<rparr>"

definition disconnect :: "Client \<Rightarrow> Client" where
  "disconnect c = c\<lparr>newSocket := (newSocket c)\<lparr>disconnected := True\<rparr>\<rparr>"

definition setSocket :: "bool \<Rightarrow> Client \<Rightarrow> Client" where
  "setSocket b c = c\<lparr>socket := b\<rparr>"

definition router_push :: "string \<Rightarrow> Client \<Rightarrow> Client" where
  "router_push r c = c\<lparr>pushed := pushed c @ [r]\<rparr>"

text \<open>
  The variables the handlers close over: \<^verbatim>\<open>gameState\<close> is the constant of the render in
  which \<^verbatim>\<open>joinGame\<close> was called (later state updates do not change it), \<^verbatim>\<open>playerId\<close> and
  \<^verbatim>\<open>nickname\<close> are the locals of \<^verbatim>\<open>joinGame\<close>.
\<close>

record JoinEnv =
  gameState_env :: GameState
  playerId_env :: string
  nickname_env :: string

text \<open>The events the handlers are registered for. The error payloads are only logged.\<close>

datatype Event =
    Connect_error
  | Reconnect
  | Reconnect_error
  | Connect
  | Kicked
  | AdminJoined
  | JoinRejected string
  | LobbyUpdate "Player list"
  | DisplaySong Song
  | Error_event string
  | AllDrawingsSubmitted
  | DrawingSubmitted Drawing
  | DrawingUpdate Drawing

text \<open>
  The handlers of \<^verbatim>\<open>joinGame\<close>, one equation per \<^verbatim>\<open>newSocket.on\<close>, the statements of each
  handler in the order of the source (the first statement is applied first). In the
  \<^verbatim>\<open>reconnect\<close> handler a string is truthy when it is not empty, and \<^verbatim>\<open>null\<close> is falsy.
\<close>

fun handle :: "JoinEnv \<Rightarrow> Event \<Rightarrow> Client \<Rightarrow> Client" where
  "handle env Connect_error c =
     setGameState (updateGameState (no_updates
       \<lparr>joinError_u := Some (Some ''Failed to connect to server. Retrying...''),
        hasJoined_u := Some False\<rparr>)) c"
| "handle env Reconnect c =
     (case playerId (gameState_env env) of
        None \<Rightarrow> c
      | Some pid \<Rightarrow>
          if nickname (gameState_env env) \<noteq> [] \<and> pid \<noteq> []
          then emit (JoinLobby pid (nickname (gameState_env env))) c
          else c)"
| "handle env Reconnect_error c =
     setGameState (updateGameState (no_updates
       \<lparr>joinError_u := Some (Some ''Failed to reconnect to server''),
        hasJoined_u := Some False\<rparr>)) c"
| "handle env Connect c =
     setGameState (updateGameState (no_updates\<lparr>hasJoined_u := Some True\<rparr>))
       (emit (JoinLobby (playerId_env env) (nickname_env env)) c)"
| "handle env Kicked c =
     router_push ''/''
       (setGameState (updateGameState (no_updates\<lparr>joinError_u := Some (Some ''You were kicked'')\<rparr>))
         (setSocket False
           (disconnect
             (setGameState (\<lambda>_. initialGameState) c))))"
| "handle env AdminJoined c =
     setGameState (updateGameState (no_updates\<lparr>isAdmin_u := Some True\<rparr>)) c"
| "handle env (JoinRejected reason) c =
     setSocket False
       (disconnect
         (setGameState (updateGameState (no_updates
            \<lparr>joinError_u := Some (Some reason), hasJoined_u := Some False\<rparr>)) c))"
| "handle env (LobbyUpdate updatedPlayers) c =
     setGameState (updateGameState (no_updates\<lparr>players_u := Some updatedPlayers\<rparr>)) c"
| "handle env (DisplaySong songData) c =
     setGameState (updateGameState (no_updates\<lparr>song_u := Some (Some songData)\<rparr>)) c"
| "handle env (Error_event errorMessage) c =
     setGameState (updateGameState (no_updates
       \<lparr>submitError_u := Some (Some errorMessage), isSubmittingDrawing_u := Some False\<rparr>)) c"
| "handle env AllDrawingsSubmitted c =
     setGameState (updateGameState (no_updates
       \<lparr>waitingForOthersToSubmit_u := Some False, allPlayersSubmitted_u := Some True\<rparr>)) c"
| "handle env (DrawingSubmitted drawing) c =
     setGameState (drawingSubmitted_updater drawing) c"
| "handle env (DrawingUpdate drawing) c =
     setGameState (drawingUpdate_updater drawing) c"

text \<open>
  The transport (socket.io-client, an external library) calls a handler when an event
  arrives on a socket; once \<^verbatim>\<open>disconnect()\<close> has been called on the socket, it delivers
  nothing more to it, buffered or not, and does not reconnect it.
\<close>

definition deliver :: "JoinEnv \<Rightarrow> Event \<Rightarrow> Client \<Rightarrow> Client" where
  "deliver env ev c = (if disconnected (newSocket c) then c else handle env ev c)"

fun run :: "JoinEnv \<Rightarrow> Event list \<Rightarrow> Client \<Rightarrow> Client" where
  "run env [] c = c"
| "run env (ev # evs) c = run env evs (deliver env ev c)"

text \<open>
  \<^verbatim>\<open>joinGame(nickname)\<close>: the identifier drawn from \<^verbatim>\<open>Math.random\<close> is the argument
  \<open>pid\<close>. It queues the update of \<^verbatim>\<open>playerId\<close> and \<^verbatim>\<open>nickname\<close>, creates the socket, stores
  it, and registers the handlers, which close over the \<^verbatim>\<open>gameState\<close> of the calling
  render. The result is the closure environment and the client. Only the socket of the
  latest call is followed: the provider's effect closes the one it replaces.
\<close>

definition joinGame :: "string \<Rightarrow> string \<Rightarrow> Client \<Rightarrow> JoinEnv \<times> Client" where
  "joinGame pid nick c =
     (\<lparr>gameState_env = gameState c, playerId_env = pid, nickname_env = nick\<rparr>,
      setSocket True
        ((setGameState (updateGameState (no_updates
            \<lparr>playerId_u := Some (Some pid), nickname_u := Some nick\<rparr>)) c)
         \<lparr>newSocket := \<lparr>disconnected = False, emitted = []\<rparr>\<rparr>))"

text \<open>
  The provider before any join: the initial state and no socket, so that nothing can be
  delivered.
\<close>

definition initialClient :: Client where
  "initialClient = \<lparr>gameState = initialGameState, socket = False,
     newSocket = \<lparr>disconnected = True, emitted = []\<rparr>, pushed = []\<rparr>"

text \<open>
  One use of the provider: the user calls \<^verbatim>\<open>joinGame\<close>, then the transport brings the
  events \<open>evs\<close> in this order.
\<close>

definition session :: "string \<Rightarrow> string \<Rightarrow> Event list \<Rightarrow> Client \<Rightarrow> Client" where
  "session pid nick evs c = (case joinGame pid nick c of (env, c') \<Rightarrow> run env evs c')"

section \<open>Whiteboard (the drawing component)\<close>

subsection \<open>Data model\<close>

text \<open>
  A JavaScript number is left abstract: the type \<open>'n\<close>, with the subtraction that
  \<^verbatim>\<open>getCoordinates\<close> needs. The fields \<^verbatim>\<open>x\<close>, \<^verbatim>\<open>y\<close> and \<^verbatim>\<open>end\<close> carry a suffix
  (\<^verbatim>\<open>end\<close> is a keyword, \<open>x\<close> and \<open>y\<close> stay free for variables).
\<close>

record 'n Point =
  x_pt :: 'n
  y_pt :: 'n

text \<open>The payload of the \<^verbatim>\<open>draw\<close> event: \<^verbatim>\<open>{ start, end }\<close>.\<close>

record 'n Segment =
  start :: "'n Point"
  end_sg :: "'n Point"

text \<open>What the component emits on its socket.\<close>

datatype 'n Emitted = Draw "'n Segment"

text \<open>
  The canvas element: whether \<^verbatim>\<open>getContext("2d")\<close> gives a context, the lines stroked
  on it since it was last cleared (oldest first), and the left and top of its bounding
  client rectangle.
\<close>

record 'n Canvas =
  context2d :: bool
  stroked :: "'n Segment list"
  rect_left :: 'n
  rect_top :: 'n

text \<open>
  The result of \<^verbatim>\<open>canvas.toDataURL("image/png")\<close>: the encoded image stands for the
  content of the surface it was taken from.
\<close>

datatype 'n Blob = Png "'n Segment list"

definition toDataURL :: "'n Canvas \<Rightarrow> 'n Blob" where
  "toDataURL canvas = Png (stroked canvas)"

text \<open>
  The component: its two React states, the canvas behind \<^verbatim>\<open>canvasRef\<close> (\<open>None\<close> while
  the ref is null), whether \<^verbatim>\<open>useSocket()\<close> gave a socket (the hook is defined outside
  this component, its result is taken as given), what was emitted on the socket, and the
  calls of \<^verbatim>\<open>console.log\<close> (label and data). Every event is handled with the states
  that the previous event left.
\<close>

record 'n Whiteboard =
  isDrawing :: bool
  lastPoint :: "'n Point option"
  canvasRef :: "'n Canvas option"
  socket_wb :: bool
  sent :: "'n Emitted list"
  console :: "(string \<times> 'n Blob) list"

text \<open>
  A pointer event by its native event: a mouse event with its offsets, a touch event
  with the client position of its first touch (the handlers that read an event are bound
  to touch start and touch move, which carry a touch), or anything else.
\<close>

datatype 'n PointerEvent = MouseEv 'n 'n | TouchEv 'n 'n | OtherEv

subsection \<open>Operations\<close>

fun getCoordinates :: "('n::minus) Canvas option \<Rightarrow> 'n PointerEvent \<Rightarrow> 'n Point option" where
  "getCoordinates cref (MouseEv offsetX offsetY) = Some \<lparr>x_pt = offsetX, y_pt = offsetY\<rparr>"
| "getCoordinates cref (TouchEv clientX clientY) =
     (case cref of
        Some canvas \<Rightarrow>
          Some \<lparr>x_pt = clientX - rect_left canvas, y_pt = clientY - rect_top canvas\<rparr>
      | None \<Rightarrow> None)"
| "getCoordinates cref OtherEv = None"

definition startDrawing :: "('n::minus) PointerEvent \<Rightarrow> 'n Whiteboard \<Rightarrow> 'n Whiteboard" where
  "startDrawing e w =
     (case getCoordinates (canvasRef w) e of
        Some point \<Rightarrow> w\<lparr>isDrawing := True, lastPoint := Some point\<rparr>
      | None \<Rightarrow> w)"

text \<open>
  \<^verbatim>\<open>beginPath(); moveTo(a); lineTo(b); stroke()\<close> on the context of a canvas.
\<close>

definition stroke_line :: "'n Point \<Rightarrow> 'n Point \<Rightarrow> 'n Canvas \<Rightarrow> 'n Canvas" where
  "stroke_line a b canvas = canvas\<lparr>stroked := stroked canvas @ [\<lparr>start = a, end_sg = b\<rparr>]\<rparr>"

text \<open>
  \<^verbatim>\<open>draw(e)\<close>: the early returns, then the guarded drawing and emission
  (\<^verbatim>\<open>if (context)\<close>, \<^verbatim>\<open>socket?.emit\<close>), then \<^verbatim>\<open>setLastPoint(point)\<close>, which is outside
  the guard.
\<close>

definition draw :: "('n::minus) PointerEvent \<Rightarrow> 'n Whiteboard \<Rightarrow> 'n Whiteboard" where
  "draw e w =
     (if \<not> isDrawing w then w
      else case lastPoint w of
        None \<Rightarrow> w
      | Some anchor \<Rightarrow>
          (case getCoordinates (canvasRef w) e of
             None \<Rightarrow> w
           | Some point \<Rightarrow>
               (let w' =
                  (case canvasRef w of
                     None \<Rightarrow> w
                   | Some canvas \<Rightarrow>
                       if context2d canvas
                       then (let w1 = w\<lparr>canvasRef := Some (stroke_line anchor point canvas)\<rparr>
                             in if socket_wb w1
                                then w1\<lparr>sent := sent w1 @ [Draw \<lparr>start = anchor, end_sg = point\<rparr>]\<rparr>
                                else w1)
                       else w)
                in w'\<lparr>lastPoint := Some point\<rparr>)))"

definition stopDrawing :: "'n Whiteboard \<Rightarrow> 'n Whiteboard" where
  "stopDrawing w = w\<lparr>isDrawing := False, lastPoint := None\<rparr>"

text \<open>\<^verbatim>\<open>clearRect\<close> over the whole canvas, when there is a canvas with a context.\<close>

definition clearCanvas :: "'n Whiteboard \<Rightarrow> 'n Whiteboard" where
  "clearCanvas w =
     (case canvasRef w of
        None \<Rightarrow> w
      | Some canvas \<Rightarrow>
          if context2d canvas then w\<lparr>canvasRef := Some (canvas\<lparr>stroked := []\<rparr>)\<rparr> else w)"

text \<open>\<^verbatim>\<open>handleSubmit()\<close>: the data URL of the canvas is taken and logged.\<close>

definition handleSubmit :: "'n Whiteboard \<Rightarrow> 'n Whiteboard" where
  "handleSubmit w =
     (case canvasRef w of
        Some canvas \<Rightarrow>
          (let imageData = toDataURL canvas
           in w\<lparr>console := console w @ [(''Canvas data:'', imageData)]\<rparr>)
      | None \<Rightarrow> w)"

section \<open>Properties\<close>

subsection \<open>Facts about findIndex and the two updaters\<close>

lemma findIndex_ge: "- 1 \<le> findIndex P xs"
  by (induction xs) (simp_all add: Let_def)

lemma findIndex_none: "findIndex P xs = - 1 \<longleftrightarrow> (\<forall>a \<in> set xs. \<not> P a)"
proof (induction xs)
  case Nil
  show ?case by simp
next
  case (Cons a as)
  have "- 1 \<le> findIndex P as" by (rule findIndex_ge)
  then show ?case using Cons by (auto simp add: Let_def)
qed

lemma findIndex_first:
  "i < length xs \<Longrightarrow> P (xs ! i) \<Longrightarrow> (\<forall>j < i. \<not> P (xs ! j)) \<Longrightarrow> findIndex P xs = int i"
proof (induction xs arbitrary: i)
  case Nil
  then show ?case by simp
next
  case (Cons a as)
  show ?case
  proof (cases i)
    case 0
    then show ?thesis using Cons.prems by simp
  next
    case (Suc k)
    have na: "\<not> P a" using Cons.prems(3) Suc by force
    have "findIndex P as = int k"
    proof (rule Cons.IH)
      show "k < length as" using Cons.prems(1) Suc by simp
      show "P (as ! k)" using Cons.prems(2) Suc by simp
      show "\<forall>j<k. \<not> P (as ! j)"
      proof (intro allI impI)
        fix j assume "j < k"
        then have "Suc j < i" using Suc by simp
        then have "\<not> P ((a # as) ! Suc j)" using Cons.prems(3) by blast
        then show "\<not> P (as ! j)" by simp
      qed
    qed
    then show ?thesis using na Suc by (simp add: Let_def)
  qed
qed

lemma findIndex_found:
  "findIndex P xs \<noteq> - 1 \<Longrightarrow>
     0 \<le> findIndex P xs \<and> nat (findIndex P xs) < length xs \<and> P (xs ! nat (findIndex P xs))"
proof (induction xs)
  case Nil
  then show ?case by simp
next
  case (Cons a as)
  show ?case
  proof (cases "P a")
    case True
    then show ?thesis by simp
  next
    case False
    then have ne: "findIndex P as \<noteq> - 1" using Cons.prems by (auto simp add: Let_def)
    from Cons.IH [OF ne] have ih: "0 \<le> findIndex P as" "nat (findIndex P as) < length as"
      "P (as ! nat (findIndex P as))" by simp_all
    have "nat (findIndex P as + 1) = Suc (nat (findIndex P as))" using ih(1) by simp
    then show ?thesis using False ne ih by (simp add: Let_def)
  qed
qed

lemma findIndex_before: "findIndex P xs = int k \<Longrightarrow> j < k \<Longrightarrow> \<not> P (xs ! j)"
proof (induction xs arbitrary: k j)
  case Nil
  then show ?case by simp
next
  case (Cons a as)
  have na: "\<not> P a" using Cons.prems by (cases "P a") simp_all
  then have ne: "findIndex P as \<noteq> - 1" using Cons.prems(1) by (auto simp add: Let_def)
  obtain k' where k': "k = Suc k'" using Cons.prems(2) by (cases k) simp_all
  have as: "findIndex P as = int k'" using Cons.prems(1) na ne k' by (simp add: Let_def)
  show ?case
  proof (cases j)
    case 0
    then show ?thesis using na by simp
  next
    case (Suc j')
    then have "j' < k'" using Cons.prems(2) k' by simp
    with as have "\<not> P (as ! j')" by (rule Cons.IH)
    then show ?thesis using Suc by simp
  qed
qed

lemma findIndex_distinct:
  assumes "distinct (map f xs)" and "i < length xs" and "f (xs ! i) = a"
  shows "findIndex (\<lambda>x. f x = a) xs = int i"
proof (rule findIndex_first)
  show "i < length xs" by (rule assms(2))
  show "f (xs ! i) = a" by (rule assms(3))
  show "\<forall>j<i. f (xs ! j) \<noteq> a"
  proof (intro allI impI)
    fix j assume j: "j < i"
    have "j < length (map f xs)" "i < length (map f xs)" using j assms(2) by simp_all
    with assms(1) have "(map f xs ! j = map f xs ! i) = (j = i)"
      by (rule nth_eq_iff_index_eq)
    then show "f (xs ! j) \<noteq> a" using j assms(2,3) by simp
  qed
qed

lemma playerId_spread [simp]: "playerId_rec (spread_submitted d b) = playerId_dr d"
  by (simp add: spread_submitted_def)

lemma submitted_spread [simp]: "submitted (spread_submitted d b) = b"
  by (simp add: spread_submitted_def)

lemma submitted_drawings_found:
  "findIndex (\<lambda>r. playerId_rec r = playerId_dr d) (drawings prev) = int i \<Longrightarrow>
   drawings (drawingSubmitted_updater d prev) = (drawings prev)[i := spread_submitted d True]"
  by (simp add: drawingSubmitted_updater_def Let_def)

lemma update_drawings_found:
  "findIndex (\<lambda>r. playerId_rec r = playerId_dr d) (drawings prev) = int i \<Longrightarrow>
   drawings (drawingUpdate_updater d prev) =
     (drawings prev)[i := spread_submitted d (submitted (drawings prev ! i))]"
  by (simp add: drawingUpdate_updater_def Let_def)

lemma submitted_drawings_absent:
  "findIndex (\<lambda>r. playerId_rec r = playerId_dr d) (drawings prev) = - 1 \<Longrightarrow>
   drawings (drawingSubmitted_updater d prev) = drawings prev @ [spread_submitted d True]"
  by (simp add: drawingSubmitted_updater_def Let_def)

lemma update_drawings_absent:
  "findIndex (\<lambda>r. playerId_rec r = playerId_dr d) (drawings prev) = - 1 \<Longrightarrow>
   drawings (drawingUpdate_updater d prev) = drawings prev @ [spread_submitted d False]"
  by (simp add: drawingUpdate_updater_def Let_def)

text \<open>The index that findIndex gives when there is a match, as a natural number.\<close>

lemma findIndex_match:
  assumes "findIndex (\<lambda>r. playerId_rec r = pid) ds \<noteq> - 1"
  obtains k where "findIndex (\<lambda>r. playerId_rec r = pid) ds = int k"
    and "k < length ds" and "playerId_rec (ds ! k) = pid"
proof -
  from findIndex_found [OF assms]
  have "findIndex (\<lambda>r. playerId_rec r = pid) ds
          = int (nat (findIndex (\<lambda>r. playerId_rec r = pid) ds))"
    and "nat (findIndex (\<lambda>r. playerId_rec r = pid) ds) < length ds"
    and "playerId_rec (ds ! nat (findIndex (\<lambda>r. playerId_rec r = pid) ds)) = pid"
    by simp_all
  then show thesis by (rule that)
qed

lemma gameState_handle_submitted:
  "gameState (handle env (DrawingSubmitted d) c) = drawingSubmitted_updater d (gameState c)"
  by (simp add: setGameState_def)

lemma gameState_handle_update:
  "gameState (handle env (DrawingUpdate d) c) = drawingUpdate_updater d (gameState c)"
  by (simp add: setGameState_def)

lemma drawingSubmitted_lookup:
  "\<exists>k. findIndex (\<lambda>r. playerId_rec r = playerId_dr d)
          (drawings (drawingSubmitted_updater d prev)) = int k
     \<and> k < length (drawings (drawingSubmitted_updater d prev))
     \<and> drawings (drawingSubmitted_updater d prev) ! k = spread_submitted d True"
proof -
  let ?P = "\<lambda>r. playerId_rec r = playerId_dr d"
  let ?ds = "drawings prev"
  let ?ds' = "drawings (drawingSubmitted_updater d prev)"
  show ?thesis
  proof (cases "findIndex ?P ?ds = - 1")
    case True
    then have no: "\<forall>r \<in> set ?ds. \<not> ?P r" by (simp add: findIndex_none)
    have ds': "?ds' = ?ds @ [spread_submitted d True]"
      using True by (rule submitted_drawings_absent)
    have "findIndex ?P ?ds' = int (length ?ds)"
    proof (rule findIndex_first)
      show "length ?ds < length ?ds'" by (simp add: ds')
      show "?P (?ds' ! length ?ds)" by (simp add: ds')
      show "\<forall>j < length ?ds. \<not> ?P (?ds' ! j)" using no by (simp add: ds' nth_append)
    qed
    then show ?thesis by (simp add: ds')
  next
    case False
    then obtain k where k: "findIndex ?P ?ds = int k" "k < length ?ds" "?P (?ds ! k)"
      by (rule findIndex_match)
    have ds': "?ds' = ?ds[k := spread_submitted d True]"
      using k(1) by (rule submitted_drawings_found)
    have before: "\<forall>j < k. \<not> ?P (?ds ! j)"
      using findIndex_before [OF k(1)] by blast
    have "findIndex ?P ?ds' = int k"
    proof (rule findIndex_first)
      show "k < length ?ds'" using k(2) by (simp add: ds')
      show "?P (?ds' ! k)" using k(2) by (simp add: ds')
      show "\<forall>j < k. \<not> ?P (?ds' ! j)" using before by (simp add: ds')
    qed
    then show ?thesis using k(2) by (simp add: ds')
  qed
qed

lemma map_update_same:
  "i < length xs \<Longrightarrow> f v = f (xs ! i) \<Longrightarrow> map f (xs[i := v]) = map f xs"
  by (simp add: map_update list_update_same_conv)

lemma ids_submitted:
  assumes "distinct (map playerId_rec (drawings prev))"
  shows "distinct (map playerId_rec (drawings (drawingSubmitted_updater d prev)))"
proof (cases "findIndex (\<lambda>r. playerId_rec r = playerId_dr d) (drawings prev) = - 1")
  case True
  then have "\<forall>r \<in> set (drawings prev). playerId_rec r \<noteq> playerId_dr d"
    by (simp add: findIndex_none)
  then show ?thesis using assms True by (auto simp add: submitted_drawings_absent)
next
  case False
  then obtain k where k: "findIndex (\<lambda>r. playerId_rec r = playerId_dr d) (drawings prev) = int k"
    "k < length (drawings prev)" "playerId_rec (drawings prev ! k) = playerId_dr d"
    by (rule findIndex_match)
  show ?thesis using assms k(2,3)
    by (simp add: submitted_drawings_found [OF k(1)] map_update_same)
qed

lemma ids_update:
  assumes "distinct (map playerId_rec (drawings prev))"
  shows "distinct (map playerId_rec (drawings (drawingUpdate_updater d prev)))"
proof (cases "findIndex (\<lambda>r. playerId_rec r = playerId_dr d) (drawings prev) = - 1")
  case True
  then have "\<forall>r \<in> set (drawings prev). playerId_rec r \<noteq> playerId_dr d"
    by (simp add: findIndex_none)
  then show ?thesis using assms True by (auto simp add: update_drawings_absent)
next
  case False
  then obtain k where k: "findIndex (\<lambda>r. playerId_rec r = playerId_dr d) (drawings prev) = int k"
    "k < length (drawings prev)" "playerId_rec (drawings prev ! k) = playerId_dr d"
    by (rule findIndex_match)
  show ?thesis using assms k(2,3)
    by (simp add: update_drawings_found [OF k(1)] map_update_same)
qed

lemma ids_handle:
  assumes "distinct (map playerId_rec (drawings (gameState c)))"
  shows "distinct (map playerId_rec (drawings (gameState (handle env ev c))))"
proof (cases ev)
  case (DrawingSubmitted d)
  then show ?thesis using assms by (simp add: setGameState_def ids_submitted)
next
  case (DrawingUpdate d)
  then show ?thesis using assms by (simp add: setGameState_def ids_update)
next
  case Reconnect
  then show ?thesis using assms by (simp add: emit_def split: option.splits)
next
  case Kicked
  then show ?thesis
    by (simp add: setGameState_def updateGameState_def no_updates_def initialGameState_def
        router_push_def setSocket_def disconnect_def)
qed (use assms in \<open>simp_all add: setGameState_def updateGameState_def no_updates_def emit_def
      setSocket_def disconnect_def\<close>)

lemma ids_run:
  "distinct (map playerId_rec (drawings (gameState c))) \<Longrightarrow>
   distinct (map playerId_rec (drawings (gameState (run env evs c))))"
proof (induction evs arbitrary: c)
  case Nil
  then show ?case by simp
next
  case (Cons ev evs)
  have "distinct (map playerId_rec (drawings (gameState (deliver env ev c))))"
    using Cons.prems by (simp add: deliver_def ids_handle)
  then show ?case by (simp add: Cons.IH)
qed

subsection \<open>Facts about the socket and the delivery of events\<close>

lemma run_disconnected: "disconnected (newSocket c) \<Longrightarrow> run env evs c = c"
  by (induction evs) (simp_all add: deliver_def)

lemma run_append: "run env (evs @ evs') c = run env evs' (run env evs c)"
  by (induction evs arbitrary: c) simp_all

lemma run_lobby_open:
  "\<not> disconnected (newSocket c) \<Longrightarrow>
   \<not> disconnected (newSocket (run env (map LobbyUpdate pss) c))"
  by (induction pss arbitrary: c) (simp_all add: deliver_def setGameState_def)

lemma kicked_disconnected: "disconnected (newSocket (handle env Kicked c))"
  by (simp add: setGameState_def router_push_def setSocket_def disconnect_def)

lemma rejected_disconnected: "disconnected (newSocket (handle env (JoinRejected r) c))"
  by (simp add: setGameState_def setSocket_def disconnect_def)

lemma joinGame_open: "\<not> disconnected (newSocket (snd (joinGame pid nick c)))"
  by (simp add: joinGame_def setSocket_def)

subsection \<open>Facts about the submitted flag\<close>

lemma submitted_only_by_drawingSubmitted:
  assumes "i < length (drawings (gameState (handle env ev c)))"
    and "submitted (drawings (gameState (handle env ev c)) ! i)"
    and "i < length (drawings (gameState c)) \<longrightarrow> \<not> submitted (drawings (gameState c) ! i)"
  shows "\<exists>d. ev = DrawingSubmitted d"
proof (cases ev)
  case (DrawingSubmitted d)
  then show ?thesis by simp
next
  case (DrawingUpdate d)
  let ?ds = "drawings (gameState c)"
  let ?ds' = "drawings (drawingUpdate_updater d (gameState c))"
  have i': "i < length ?ds'" "submitted (?ds' ! i)"
    using assms(1,2) DrawingUpdate by (simp_all add: setGameState_def)
  have False
  proof (cases "findIndex (\<lambda>r. playerId_rec r = playerId_dr d) ?ds = - 1")
    case True
    then have ds': "?ds' = ?ds @ [spread_submitted d False]"
      by (rule update_drawings_absent)
    show False
    proof (cases "i < length ?ds")
      case True
      then show False using i'(2) assms(3) by (simp add: ds' nth_append)
    next
      case False
      then have "i = length ?ds" using i'(1) by (simp add: ds')
      then show False using i'(2) by (simp add: ds')
    qed
  next
    case False
    then obtain k where k: "findIndex (\<lambda>r. playerId_rec r = playerId_dr d) ?ds = int k"
      "k < length ?ds" "playerId_rec (?ds ! k) = playerId_dr d"
      by (rule findIndex_match)
    have ds': "?ds' = ?ds[k := spread_submitted d (submitted (?ds ! k))]"
      using k(1) by (rule update_drawings_found)
    have il: "i < length ?ds" using i'(1) by (simp add: ds')
    show False
    proof (cases "i = k")
      case True
      then show False using i'(2) il assms(3) by (simp add: ds')
    next
      case False
      then show False using i'(2) il assms(3) by (simp add: ds')
    qed
  qed
  then show ?thesis ..
next
  case Kicked
  then have "drawings (gameState (handle env ev c)) = []"
    by (simp add: setGameState_def updateGameState_def no_updates_def initialGameState_def
        router_push_def setSocket_def disconnect_def)
  then show ?thesis using assms(1) by simp
next
  case Reconnect
  then have "drawings (gameState (handle env ev c)) = drawings (gameState c)"
    by (simp add: emit_def split: option.splits)
  then show ?thesis using assms by simp
next
  case Connect_error
  then have "drawings (gameState (handle env ev c)) = drawings (gameState c)"
    by (simp add: setGameState_def updateGameState_def no_updates_def)
  then show ?thesis using assms by simp
next
  case Reconnect_error
  then have "drawings (gameState (handle env ev c)) = drawings (gameState c)"
    by (simp add: setGameState_def updateGameState_def no_updates_def)
  then show ?thesis using assms by simp
next
  case Connect
  then have "drawings (gameState (handle env ev c)) = drawings (gameState c)"
    by (simp add: setGameState_def updateGameState_def no_updates_def emit_def)
  then show ?thesis using assms by simp
next
  case AdminJoined
  then have "drawings (gameState (handle env ev c)) = drawings (gameState c)"
    by (simp add: setGameState_def updateGameState_def no_updates_def)
  then show ?thesis using assms by simp
next
  case (JoinRejected r)
  then have "drawings (gameState (handle env ev c)) = drawings (gameState c)"
    by (simp add: setGameState_def updateGameState_def no_updates_def setSocket_def
        disconnect_def)
  then show ?thesis using assms by simp
next
  case (LobbyUpdate ps)
  then have "drawings (gameState (handle env ev c)) = drawings (gameState c)"
    by (simp add: setGameState_def updateGameState_def no_updates_def)
  then show ?thesis using assms by simp
next
  case (DisplaySong sg)
  then have "drawings (gameState (handle env ev c)) = drawings (gameState c)"
    by (simp add: setGameState_def updateGameState_def no_updates_def)
  then show ?thesis using assms by simp
next
  case (Error_event m)
  then have "drawings (gameState (handle env ev c)) = drawings (gameState c)"
    by (simp add: setGameState_def updateGameState_def no_updates_def)
  then show ?thesis using assms by simp
next
  case AllDrawingsSubmitted
  then have "drawings (gameState (handle env ev c)) = drawings (gameState c)"
    by (simp add: setGameState_def updateGameState_def no_updates_def)
  then show ?thesis using assms by simp
qed

subsection \<open>Two reachable states, evaluated\<close>

lemma example_submitted:
  "drawings (gameState (session ''p1'' ''Ava''
      [DrawingSubmitted \<lparr>playerId_dr = ''p2'', nickname_dr = ''Bo'', imageData_dr = ''C''\<rparr>]
      initialClient))
   = [\<lparr>playerId_rec = ''p2'', nickname_rec = ''Bo'', imageData_rec = ''C'',
        submitted = True\<rparr>]"
  by (simp add: session_def joinGame_def initialClient_def initialGameState_def
      setSocket_def setGameState_def updateGameState_def no_updates_def deliver_def
      drawingSubmitted_updater_def spread_submitted_def)

lemma example_update:
  "drawings (gameState (session ''p1'' ''Ava''
      [DrawingUpdate \<lparr>playerId_dr = ''p2'', nickname_dr = ''Bo'', imageData_dr = ''A''\<rparr>]
      initialClient))
   = [\<lparr>playerId_rec = ''p2'', nickname_rec = ''Bo'', imageData_rec = ''A'',
        submitted = False\<rparr>]"
  by (simp add: session_def joinGame_def initialClient_def initialGameState_def
      setSocket_def setGameState_def updateGameState_def no_updates_def deliver_def
      drawingUpdate_updater_def spread_submitted_def)

subsection \<open>Facts about what is emitted\<close>

lemma emitted_handle:
  assumes "ev \<noteq> Reconnect"
  shows "emitted (newSocket (handle env ev c)) = emitted (newSocket c)
    \<or> emitted (newSocket (handle env ev c))
        = emitted (newSocket c) @ [JoinLobby (playerId_env env) (nickname_env env)]"
  using assms
  by (cases ev) (simp_all add: setGameState_def emit_def setSocket_def disconnect_def
      router_push_def)

lemma emitted_run:
  "Reconnect \<notin> set evs \<Longrightarrow>
   \<forall>m \<in> set (emitted (newSocket c)). m = JoinLobby (playerId_env env) (nickname_env env) \<Longrightarrow>
   \<forall>m \<in> set (emitted (newSocket (run env evs c))).
      m = JoinLobby (playerId_env env) (nickname_env env)"
proof (induction evs arbitrary: c)
  case Nil
  then show ?case by simp
next
  case (Cons ev evs)
  have ne: "ev \<noteq> Reconnect" and rest: "Reconnect \<notin> set evs" using Cons.prems(1) by auto
  have "\<forall>m \<in> set (emitted (newSocket (deliver env ev c))).
      m = JoinLobby (playerId_env env) (nickname_env env)"
  proof (cases "disconnected (newSocket c)")
    case True
    then show ?thesis using Cons.prems(2) by (simp add: deliver_def)
  next
    case False
    from emitted_handle [OF ne, of env c] show ?thesis
    proof
      assume "emitted (newSocket (handle env ev c)) = emitted (newSocket c)"
      then show ?thesis using False Cons.prems(2) by (simp add: deliver_def)
    next
      assume "emitted (newSocket (handle env ev c))
        = emitted (newSocket c) @ [JoinLobby (playerId_env env) (nickname_env env)]"
      then show ?thesis using False Cons.prems(2) by (auto simp add: deliver_def)
    qed
  qed
  with rest have "\<forall>m \<in> set (emitted (newSocket (run env evs (deliver env ev c)))).
      m = JoinLobby (playerId_env env) (nickname_env env)"
    by (rule Cons.IH)
  then show ?case by simp
qed

subsection \<open>The claims\<close>

text \<open>
  C1. After the kicked handler has run, the state is the initial state with joinError
  set to "You were kicked", disconnect has been called on the socket, the stored socket is
  null, the router was sent to the entry screen, and whatever events arrive afterwards
  change nothing: none of them is processed.
\<close>

theorem kicked_resets_and_closes:
  "gameState (handle env Kicked c) = initialGameState\<lparr>joinError := Some ''You were kicked''\<rparr>
   \<and> disconnected (newSocket (handle env Kicked c))
   \<and> \<not> socket (handle env Kicked c)
   \<and> pushed (handle env Kicked c) = pushed c @ [''/'']
   \<and> (\<forall>evs. run env evs (handle env Kicked c) = handle env Kicked c)"
proof -
  have st: "gameState (handle env Kicked c) =
      initialGameState\<lparr>joinError := Some ''You were kicked''\<rparr>"
    by (simp add: setGameState_def updateGameState_def no_updates_def initialGameState_def
        router_push_def setSocket_def disconnect_def)
  have so: "\<not> socket (handle env Kicked c)"
    by (simp add: setGameState_def router_push_def setSocket_def disconnect_def)
  have pu: "pushed (handle env Kicked c) = pushed c @ [''/'']"
    by (simp add: setGameState_def router_push_def setSocket_def disconnect_def)
  have "\<forall>evs. run env evs (handle env Kicked c) = handle env Kicked c"
    using kicked_disconnected by (simp only: run_disconnected simp_thms)
  with st so pu kicked_disconnected show ?thesis by blast
qed

text \<open>
  C2. A reconnection reaches the socket as another connect event: in the socket.io-client
  that exports \<^verbatim>\<open>io\<close> by name, the reconnect event is emitted on the manager and never
  on the socket. Every connect event on the open socket, the first and each later one,
  sends joinLobby with the playerId and the nickname of the joinGame call that created
  the socket and leaves the playerId and nickname of the state as they are. So the join
  and the rejoin carry the same identity, and over any sequence of events that the socket
  can receive every joinLobby sent on it carries that identity.
\<close>

theorem reconnection_resends_same_identity:
  "emitted (newSocket (session pid nick [Connect, Connect] c))
     = [JoinLobby pid nick, JoinLobby pid nick]
   \<and> (\<not> disconnected (newSocket c')
        \<longrightarrow> emitted (newSocket (deliver env Connect c'))
              = emitted (newSocket c') @ [JoinLobby (playerId_env env) (nickname_env env)]
          \<and> playerId (gameState (deliver env Connect c')) = playerId (gameState c')
          \<and> nickname (gameState (deliver env Connect c')) = nickname (gameState c'))
   \<and> (Reconnect \<notin> set evs
        \<longrightarrow> (\<forall>m \<in> set (emitted (newSocket (session pid nick evs c))).
               m = JoinLobby pid nick))"
proof (intro conjI impI)
  show "emitted (newSocket (session pid nick [Connect, Connect] c))
     = [JoinLobby pid nick, JoinLobby pid nick]"
    by (simp add: session_def joinGame_def setSocket_def setGameState_def deliver_def
        emit_def)
next
  assume "\<not> disconnected (newSocket c')"
  then show "emitted (newSocket (deliver env Connect c'))
      = emitted (newSocket c') @ [JoinLobby (playerId_env env) (nickname_env env)]"
    by (simp add: deliver_def setGameState_def emit_def)
next
  assume "\<not> disconnected (newSocket c')"
  then show "playerId (gameState (deliver env Connect c')) = playerId (gameState c')"
    by (simp add: deliver_def setGameState_def emit_def updateGameState_def no_updates_def)
next
  assume "\<not> disconnected (newSocket c')"
  then show "nickname (gameState (deliver env Connect c')) = nickname (gameState c')"
    by (simp add: deliver_def setGameState_def emit_def updateGameState_def no_updates_def)
next
  assume no: "Reconnect \<notin> set evs"
  have start: "\<forall>m \<in> set (emitted (newSocket (snd (joinGame pid nick c)))).
      m = JoinLobby (playerId_env (fst (joinGame pid nick c)))
            (nickname_env (fst (joinGame pid nick c)))"
    by (simp add: joinGame_def setSocket_def)
  have "\<forall>m \<in> set (emitted (newSocket (run (fst (joinGame pid nick c)) evs
            (snd (joinGame pid nick c))))).
      m = JoinLobby (playerId_env (fst (joinGame pid nick c)))
            (nickname_env (fst (joinGame pid nick c)))"
    using no start by (rule emitted_run)
  then show "\<forall>m \<in> set (emitted (newSocket (session pid nick evs c))).
      m = JoinLobby pid nick"
    by (simp add: session_def split_beta joinGame_def)
qed

theorem reconnection_resends_same_identity_witness:
  "emitted (newSocket (session ''p1'' ''Ava''
      [Connect, LobbyUpdate [\<lparr>id_pl = ''p1'', nickname_pl = ''Ava'', hasSubmitted = None\<rparr>],
       Connect] initialClient))
     = [JoinLobby ''p1'' ''Ava'', JoinLobby ''p1'' ''Ava'']
   \<and> emitted (newSocket
       (deliver \<lparr>gameState_env = initialGameState, playerId_env = ''p1'', nickname_env = ''Ava''\<rparr>
          Connect (session ''p1'' ''Ava'' [Connect] initialClient)))
     = [JoinLobby ''p1'' ''Ava'', JoinLobby ''p1'' ''Ava'']
   \<and> set (emitted (newSocket (session ''p1'' ''Ava''
      [Connect, LobbyUpdate [\<lparr>id_pl = ''p1'', nickname_pl = ''Ava'', hasSubmitted = None\<rparr>],
       Connect] initialClient))) = {JoinLobby ''p1'' ''Ava''}"
  using reconnection_resends_same_identity [of "''p1''" "''Ava''" initialClient
      "session ''p1'' ''Ava'' [Connect] initialClient"
      "\<lparr>gameState_env = initialGameState, playerId_env = ''p1'', nickname_env = ''Ava''\<rparr>"
      "[Connect, LobbyUpdate [\<lparr>id_pl = ''p1'', nickname_pl = ''Ava'', hasSubmitted = None\<rparr>],
        Connect]"]
  by (simp add: session_def joinGame_def initialClient_def initialGameState_def
      setSocket_def setGameState_def updateGameState_def no_updates_def deliver_def
      emit_def)

text \<open>
  C3 as the claim states it fails: on a whiteboard with a canvas and a socket, submit
  emits nothing.
\<close>

theorem handleSubmit_emits_nothing_example:
  "sent (handleSubmit
     \<lparr>isDrawing = False, lastPoint = None,
      canvasRef = Some \<lparr>context2d = True,
        stroked = [\<lparr>start = \<lparr>x_pt = 10, y_pt = 10\<rparr>, end_sg = \<lparr>x_pt = 20, y_pt = (20::int)\<rparr>\<rparr>],
        rect_left = 0, rect_top = 0\<rparr>,
      socket_wb = True, sent = [], console = []\<rparr>) = []"
  by (simp add: handleSubmit_def)

text \<open>
  C3, amended. Submit takes the encoded image of the current surface, when there is a
  canvas, and writes it to the console; it emits nothing on the socket (no submission and
  no draw segment) and changes neither the stroke state nor the surface. In the store, a
  record with submitted = true where there was none, or where the record was not
  submitted, comes only from a drawingSubmitted event.
\<close>

theorem handleSubmit_logs_only:
  "sent (handleSubmit w) = sent w
   \<and> isDrawing (handleSubmit w) = isDrawing w
   \<and> lastPoint (handleSubmit w) = lastPoint w
   \<and> canvasRef (handleSubmit w) = canvasRef w
   \<and> console (handleSubmit w)
       = (case canvasRef w of
            Some canvas \<Rightarrow> console w @ [(''Canvas data:'', toDataURL canvas)]
          | None \<Rightarrow> console w)
   \<and> (i < length (drawings (gameState (handle env ev c)))
        \<and> submitted (drawings (gameState (handle env ev c)) ! i)
        \<and> (i < length (drawings (gameState c)) \<longrightarrow> \<not> submitted (drawings (gameState c) ! i))
        \<longrightarrow> (\<exists>d. ev = DrawingSubmitted d))"
proof (intro conjI impI)
  assume "i < length (drawings (gameState (handle env ev c)))
        \<and> submitted (drawings (gameState (handle env ev c)) ! i)
        \<and> (i < length (drawings (gameState c)) \<longrightarrow> \<not> submitted (drawings (gameState c) ! i))"
  then show "\<exists>d. ev = DrawingSubmitted d"
    using submitted_only_by_drawingSubmitted [of i env ev c] by blast
qed (simp_all add: handleSubmit_def toDataURL_def split: option.splits)

theorem handleSubmit_logs_only_witness:
  "console (handleSubmit
     \<lparr>isDrawing = False, lastPoint = None,
      canvasRef = Some \<lparr>context2d = True,
        stroked = [\<lparr>start = \<lparr>x_pt = 10, y_pt = 10\<rparr>, end_sg = \<lparr>x_pt = 20, y_pt = (20::int)\<rparr>\<rparr>],
        rect_left = 0, rect_top = 0\<rparr>,
      socket_wb = True, sent = [], console = []\<rparr>)
     = [(''Canvas data:'',
         Png [\<lparr>start = \<lparr>x_pt = 10, y_pt = 10\<rparr>, end_sg = \<lparr>x_pt = 20, y_pt = 20\<rparr>\<rparr>])]
   \<and> \<not> submitted (drawings (gameState (session ''p1'' ''Ava''
         [DrawingUpdate \<lparr>playerId_dr = ''p2'', nickname_dr = ''Bo'', imageData_dr = ''A''\<rparr>]
         initialClient)) ! 0)
   \<and> submitted (drawings (gameState
       (handle \<lparr>gameState_env = initialGameState, playerId_env = ''p1'', nickname_env = ''Ava''\<rparr>
         (DrawingSubmitted \<lparr>playerId_dr = ''p2'', nickname_dr = ''Bo'', imageData_dr = ''C''\<rparr>)
         (session ''p1'' ''Ava''
           [DrawingUpdate \<lparr>playerId_dr = ''p2'', nickname_dr = ''Bo'', imageData_dr = ''A''\<rparr>]
           initialClient))) ! 0)
   \<and> (\<exists>d. DrawingSubmitted \<lparr>playerId_dr = ''p2'', nickname_dr = ''Bo'', imageData_dr = ''C''\<rparr>
            = DrawingSubmitted d)"
  using handleSubmit_logs_only [of
     "\<lparr>isDrawing = False, lastPoint = None,
      canvasRef = Some \<lparr>context2d = True,
        stroked = [\<lparr>start = \<lparr>x_pt = 10, y_pt = 10\<rparr>, end_sg = \<lparr>x_pt = 20, y_pt = (20::int)\<rparr>\<rparr>],
        rect_left = 0, rect_top = 0\<rparr>,
      socket_wb = True, sent = [], console = []\<rparr>"
     0
     "\<lparr>gameState_env = initialGameState, playerId_env = ''p1'', nickname_env = ''Ava''\<rparr>"
     "DrawingSubmitted \<lparr>playerId_dr = ''p2'', nickname_dr = ''Bo'', imageData_dr = ''C''\<rparr>"
     "session ''p1'' ''Ava''
        [DrawingUpdate \<lparr>playerId_dr = ''p2'', nickname_dr = ''Bo'', imageData_dr = ''A''\<rparr>]
        initialClient"]
  by (simp add: example_update setGameState_def drawingSubmitted_updater_def
      spread_submitted_def toDataURL_def)

text \<open>
  C4. On an open socket, after any non-empty sequence of lobbyUpdate events the players
  list is the payload of the last one, whatever the earlier payloads were.
\<close>

theorem lobbyUpdate_last:
  assumes "\<not> disconnected (newSocket c)" and "pss \<noteq> []"
  shows "players (gameState (run env (map LobbyUpdate pss) c)) = last pss"
proof -
  from assms(2) obtain qs p where pss: "pss = qs @ [p]" by (metis rev_exhaust)
  have "\<not> disconnected (newSocket (run env (map LobbyUpdate qs) c))"
    using assms(1) by (rule run_lobby_open)
  then show ?thesis
    by (simp add: pss run_append deliver_def setGameState_def updateGameState_def
        no_updates_def)
qed

theorem lobbyUpdate_last_witness:
  "players (gameState (run (fst (joinGame ''p1'' ''Ava'' initialClient))
      (map LobbyUpdate
        [[\<lparr>id_pl = ''p1'', nickname_pl = ''Ava'', hasSubmitted = None\<rparr>,
          \<lparr>id_pl = ''p2'', nickname_pl = ''Bo'', hasSubmitted = None\<rparr>],
         [\<lparr>id_pl = ''p1'', nickname_pl = ''Ava'', hasSubmitted = None\<rparr>]])
      (snd (joinGame ''p1'' ''Ava'' initialClient))))
   = [\<lparr>id_pl = ''p1'', nickname_pl = ''Ava'', hasSubmitted = None\<rparr>]"
proof -
  have h1: "\<not> disconnected (newSocket (snd (joinGame ''p1'' ''Ava'' initialClient)))"
    by (simp add: joinGame_def setSocket_def)
  have h2: "[[\<lparr>id_pl = ''p1'', nickname_pl = ''Ava'', hasSubmitted = None\<rparr>,
          \<lparr>id_pl = ''p2'', nickname_pl = ''Bo'', hasSubmitted = None\<rparr>],
         [\<lparr>id_pl = ''p1'', nickname_pl = ''Ava'', hasSubmitted = None\<rparr>]] \<noteq> []"
    by simp
  show ?thesis using lobbyUpdate_last [OF h1 h2] by simp
qed

text \<open>
  C5. If the record at some index of the drawings list has a given playerId and
  submitted = true, then after a drawingUpdate event for that playerId the record at that
  index still has that playerId and submitted = true, and the index is still in the list.
\<close>

theorem drawingUpdate_keeps_submitted:
  assumes "i < length (drawings (gameState c))"
    and "playerId_rec (drawings (gameState c) ! i) = playerId_dr drawing"
    and "submitted (drawings (gameState c) ! i)"
  shows "i < length (drawings (gameState (handle env (DrawingUpdate drawing) c)))
    \<and> playerId_rec (drawings (gameState (handle env (DrawingUpdate drawing) c)) ! i)
        = playerId_dr drawing
    \<and> submitted (drawings (gameState (handle env (DrawingUpdate drawing) c)) ! i)"
proof -
  let ?ds = "drawings (gameState c)"
  have "drawings (gameState c) ! i \<in> set ?ds" using assms(1) by simp
  then have "\<not> (\<forall>r \<in> set ?ds. playerId_rec r \<noteq> playerId_dr drawing)"
    using assms(2) by blast
  then have "findIndex (\<lambda>r. playerId_rec r = playerId_dr drawing) ?ds \<noteq> - 1"
    by (simp add: findIndex_none)
  then obtain k where k: "findIndex (\<lambda>r. playerId_rec r = playerId_dr drawing) ?ds = int k"
    "k < length ?ds" "playerId_rec (?ds ! k) = playerId_dr drawing"
    by (rule findIndex_match)
  have ds': "drawings (gameState (handle env (DrawingUpdate drawing) c))
      = ?ds[k := spread_submitted drawing (submitted (?ds ! k))]"
    unfolding gameState_handle_update using k(1) by (rule update_drawings_found)
  show ?thesis
  proof (cases "i = k")
    case True
    then show ?thesis using assms ds' by simp
  next
    case False
    then show ?thesis using assms ds' by simp
  qed
qed

theorem drawingUpdate_keeps_submitted_witness:
  "submitted (drawings (gameState (session ''p1'' ''Ava''
      [DrawingSubmitted \<lparr>playerId_dr = ''p2'', nickname_dr = ''Bo'', imageData_dr = ''C''\<rparr>]
      initialClient)) ! 0)
   \<and> submitted (drawings (gameState
       (handle \<lparr>gameState_env = initialGameState, playerId_env = ''p1'', nickname_env = ''Ava''\<rparr>
         (DrawingUpdate \<lparr>playerId_dr = ''p2'', nickname_dr = ''Bo'', imageData_dr = ''E''\<rparr>)
         (session ''p1'' ''Ava''
           [DrawingSubmitted \<lparr>playerId_dr = ''p2'', nickname_dr = ''Bo'', imageData_dr = ''C''\<rparr>]
           initialClient))) ! 0)"
  using drawingUpdate_keeps_submitted [of 0
      "session ''p1'' ''Ava''
        [DrawingSubmitted \<lparr>playerId_dr = ''p2'', nickname_dr = ''Bo'', imageData_dr = ''C''\<rparr>]
        initialClient"
      "\<lparr>playerId_dr = ''p2'', nickname_dr = ''Bo'', imageData_dr = ''E''\<rparr>"
      "\<lparr>gameState_env = initialGameState, playerId_env = ''p1'', nickname_env = ''Ava''\<rparr>"]
  by (simp add: example_submitted)

text \<open>
  C6. Whatever the prior state, after a drawingSubmitted event the drawings list holds
  the event's payload with submitted = true, and it is the record that a lookup by the
  event's playerId finds.
  Handling the same event a second time leaves the drawings list as it was after the
  first time.
\<close>

theorem drawingSubmitted_sets_and_idempotent:
  "spread_submitted drawing True
      \<in> set (drawings (gameState (handle env (DrawingSubmitted drawing) c)))
   \<and> findIndex (\<lambda>r. playerId_rec r = playerId_dr drawing)
      (drawings (gameState (handle env (DrawingSubmitted drawing) c))) \<noteq> - 1
   \<and> drawings (gameState (handle env (DrawingSubmitted drawing) c))
       ! nat (findIndex (\<lambda>r. playerId_rec r = playerId_dr drawing)
               (drawings (gameState (handle env (DrawingSubmitted drawing) c))))
     = spread_submitted drawing True
   \<and> submitted (drawings (gameState (handle env (DrawingSubmitted drawing) c))
       ! nat (findIndex (\<lambda>r. playerId_rec r = playerId_dr drawing)
               (drawings (gameState (handle env (DrawingSubmitted drawing) c)))))
   \<and> drawings (gameState (handle env (DrawingSubmitted drawing)
                  (handle env (DrawingSubmitted drawing) c)))
     = drawings (gameState (handle env (DrawingSubmitted drawing) c))"
proof -
  let ?P = "\<lambda>r. playerId_rec r = playerId_dr drawing"
  let ?g' = "drawingSubmitted_updater drawing (gameState c)"
  from drawingSubmitted_lookup [of drawing "gameState c"]
  obtain k where k: "findIndex ?P (drawings ?g') = int k" "k < length (drawings ?g')"
    "drawings ?g' ! k = spread_submitted drawing True" by blast
  have "drawings (drawingSubmitted_updater drawing ?g')
      = (drawings ?g')[k := spread_submitted drawing True]"
    using k(1) by (rule submitted_drawings_found)
  also have "\<dots> = drawings ?g'" using k(2,3) by (simp add: list_update_same_conv)
  finally have idem: "drawings (drawingSubmitted_updater drawing ?g') = drawings ?g'" .
  have mem: "spread_submitted drawing True \<in> set (drawings ?g')"
    using k(2,3) nth_mem [of k "drawings ?g'"] by simp
  show ?thesis unfolding gameState_handle_submitted using k idem mem by simp
qed

text \<open>
  C7. From the start of a session, whatever events arrive, no two records of the drawings
  list have the same playerId, and any sequence of events keeps a list without
  duplicates free of them. In such a list, a drawingSubmitted or drawingUpdate event
  whose playerId is that of the record at index \<open>i\<close> replaces that record at index \<open>i\<close>
  (the list is otherwise the same), and an event whose playerId is in no record appends
  its record at the end.
\<close>

theorem drawings_upsert_one_per_player:
  "distinct (map playerId_rec (drawings (gameState (session pid nick evs0 initialClient))))
   \<and> (distinct (map playerId_rec (drawings (gameState c)))
        \<longrightarrow> distinct (map playerId_rec (drawings (gameState (run env evs c)))))
   \<and> (distinct (map playerId_rec (drawings (gameState c)))
        \<and> i < length (drawings (gameState c))
        \<and> playerId_rec (drawings (gameState c) ! i) = playerId_dr d
        \<longrightarrow> drawings (gameState (handle env (DrawingSubmitted d) c))
              = (drawings (gameState c))[i := spread_submitted d True]
          \<and> drawings (gameState (handle env (DrawingUpdate d) c))
              = (drawings (gameState c))
                  [i := spread_submitted d (submitted (drawings (gameState c) ! i))])
   \<and> (playerId_dr d' \<notin> playerId_rec ` set (drawings (gameState c))
        \<longrightarrow> drawings (gameState (handle env (DrawingSubmitted d') c))
              = drawings (gameState c) @ [spread_submitted d' True]
          \<and> drawings (gameState (handle env (DrawingUpdate d') c))
              = drawings (gameState c) @ [spread_submitted d' False])"
proof (intro conjI impI)
  have "drawings (gameState (snd (joinGame pid nick initialClient))) = []"
    by (simp add: joinGame_def initialClient_def initialGameState_def setSocket_def
        setGameState_def updateGameState_def no_updates_def)
  then have "distinct (map playerId_rec
      (drawings (gameState (snd (joinGame pid nick initialClient)))))" by simp
  then have "distinct (map playerId_rec (drawings (gameState
      (run (fst (joinGame pid nick initialClient)) evs0
        (snd (joinGame pid nick initialClient))))))"
    by (rule ids_run)
  then show "distinct (map playerId_rec
      (drawings (gameState (session pid nick evs0 initialClient))))"
    by (simp add: session_def split_beta)
next
  assume "distinct (map playerId_rec (drawings (gameState c)))"
  then show "distinct (map playerId_rec (drawings (gameState (run env evs c))))"
    by (rule ids_run)
next
  assume a: "distinct (map playerId_rec (drawings (gameState c)))
        \<and> i < length (drawings (gameState c))
        \<and> playerId_rec (drawings (gameState c) ! i) = playerId_dr d"
  then have k: "findIndex (\<lambda>r. playerId_rec r = playerId_dr d) (drawings (gameState c)) = int i"
    by (simp add: findIndex_distinct)
  show "drawings (gameState (handle env (DrawingSubmitted d) c))
      = (drawings (gameState c))[i := spread_submitted d True]"
    unfolding gameState_handle_submitted using k by (rule submitted_drawings_found)
  show "drawings (gameState (handle env (DrawingUpdate d) c))
      = (drawings (gameState c))
          [i := spread_submitted d (submitted (drawings (gameState c) ! i))]"
    unfolding gameState_handle_update using k by (rule update_drawings_found)
next
  assume "playerId_dr d' \<notin> playerId_rec ` set (drawings (gameState c))"
  then have "\<forall>r \<in> set (drawings (gameState c)). playerId_rec r \<noteq> playerId_dr d'"
    by force
  then have k: "findIndex (\<lambda>r. playerId_rec r = playerId_dr d') (drawings (gameState c)) = - 1"
    by (simp add: findIndex_none)
  show "drawings (gameState (handle env (DrawingSubmitted d') c))
      = drawings (gameState c) @ [spread_submitted d' True]"
    unfolding gameState_handle_submitted using k by (rule submitted_drawings_absent)
  show "drawings (gameState (handle env (DrawingUpdate d') c))
      = drawings (gameState c) @ [spread_submitted d' False]"
    unfolding gameState_handle_update using k by (rule update_drawings_absent)
qed

theorem drawings_upsert_one_per_player_witness:
  "drawings (gameState (session ''p1'' ''Ava''
      [DrawingSubmitted \<lparr>playerId_dr = ''p2'', nickname_dr = ''Bo'', imageData_dr = ''C''\<rparr>]
      initialClient))
     = [\<lparr>playerId_rec = ''p2'', nickname_rec = ''Bo'', imageData_rec = ''C'',
          submitted = True\<rparr>]
   \<and> drawings (gameState
       (handle \<lparr>gameState_env = initialGameState, playerId_env = ''p1'', nickname_env = ''Ava''\<rparr>
         (DrawingUpdate \<lparr>playerId_dr = ''p2'', nickname_dr = ''Bo'', imageData_dr = ''E''\<rparr>)
         (session ''p1'' ''Ava''
           [DrawingSubmitted \<lparr>playerId_dr = ''p2'', nickname_dr = ''Bo'', imageData_dr = ''C''\<rparr>]
           initialClient)))
     = [\<lparr>playerId_rec = ''p2'', nickname_rec = ''Bo'', imageData_rec = ''E'',
          submitted = True\<rparr>]
   \<and> drawings (gameState
       (handle \<lparr>gameState_env = initialGameState, playerId_env = ''p1'', nickname_env = ''Ava''\<rparr>
         (DrawingUpdate \<lparr>playerId_dr = ''p3'', nickname_dr = ''Cy'', imageData_dr = ''D''\<rparr>)
         (session ''p1'' ''Ava''
           [DrawingSubmitted \<lparr>playerId_dr = ''p2'', nickname_dr = ''Bo'', imageData_dr = ''C''\<rparr>]
           initialClient)))
     = [\<lparr>playerId_rec = ''p2'', nickname_rec = ''Bo'', imageData_rec = ''C'',
          submitted = True\<rparr>,
        \<lparr>playerId_rec = ''p3'', nickname_rec = ''Cy'', imageData_rec = ''D'',
          submitted = False\<rparr>]
   \<and> distinct (map playerId_rec (drawings (gameState
       (run \<lparr>gameState_env = initialGameState, playerId_env = ''p1'', nickname_env = ''Ava''\<rparr>
         [DrawingUpdate \<lparr>playerId_dr = ''p3'', nickname_dr = ''Cy'', imageData_dr = ''D''\<rparr>,
          DrawingUpdate \<lparr>playerId_dr = ''p2'', nickname_dr = ''Bo'', imageData_dr = ''E''\<rparr>]
         (session ''p1'' ''Ava''
           [DrawingSubmitted \<lparr>playerId_dr = ''p2'', nickname_dr = ''Bo'', imageData_dr = ''C''\<rparr>]
           initialClient)))))"
  using drawings_upsert_one_per_player [of "''p1''" "''Ava''" "[]"
      "session ''p1'' ''Ava''
        [DrawingSubmitted \<lparr>playerId_dr = ''p2'', nickname_dr = ''Bo'', imageData_dr = ''C''\<rparr>]
        initialClient"
      "\<lparr>gameState_env = initialGameState, playerId_env = ''p1'', nickname_env = ''Ava''\<rparr>"
      "[DrawingUpdate \<lparr>playerId_dr = ''p3'', nickname_dr = ''Cy'', imageData_dr = ''D''\<rparr>,
        DrawingUpdate \<lparr>playerId_dr = ''p2'', nickname_dr = ''Bo'', imageData_dr = ''E''\<rparr>]"
      0
      "\<lparr>playerId_dr = ''p2'', nickname_dr = ''Bo'', imageData_dr = ''E''\<rparr>"
      "\<lparr>playerId_dr = ''p3'', nickname_dr = ''Cy'', imageData_dr = ''D''\<rparr>"]
  by (simp add: example_submitted spread_submitted_def)

text \<open>
  C8. The joinRejected handler sets joinError to the reason and hasJoined to false, calls
  disconnect on the socket and clears the stored socket. Afterwards no event is processed
  and nothing is emitted, whatever arrives: there is no retry. Only a new call of joinGame
  opens a socket again.
\<close>

theorem joinRejected_terminal:
  "joinError (gameState (handle env (JoinRejected reason) c)) = Some reason
   \<and> \<not> hasJoined (gameState (handle env (JoinRejected reason) c))
   \<and> disconnected (newSocket (handle env (JoinRejected reason) c))
   \<and> \<not> socket (handle env (JoinRejected reason) c)
   \<and> emitted (newSocket (handle env (JoinRejected reason) c)) = emitted (newSocket c)
   \<and> (\<forall>evs. run env evs (handle env (JoinRejected reason) c)
             = handle env (JoinRejected reason) c)
   \<and> \<not> disconnected (newSocket (snd (joinGame pid nick (handle env (JoinRejected reason) c))))"
proof -
  have a: "joinError (gameState (handle env (JoinRejected reason) c)) = Some reason"
    by (simp add: setGameState_def updateGameState_def no_updates_def setSocket_def
        disconnect_def)
  have b: "\<not> hasJoined (gameState (handle env (JoinRejected reason) c))"
    by (simp add: setGameState_def updateGameState_def no_updates_def setSocket_def
        disconnect_def)
  have d: "\<not> socket (handle env (JoinRejected reason) c)"
    by (simp add: setGameState_def setSocket_def disconnect_def)
  have e: "emitted (newSocket (handle env (JoinRejected reason) c)) = emitted (newSocket c)"
    by (simp add: setGameState_def setSocket_def disconnect_def)
  have f: "\<forall>evs. run env evs (handle env (JoinRejected reason) c)
             = handle env (JoinRejected reason) c"
    using rejected_disconnected by (simp only: run_disconnected simp_thms)
  from a b d e f rejected_disconnected joinGame_open show ?thesis by blast
qed

text \<open>
  C9 as the claim states it fails: with an active stroke and an anchor, but no socket,
  the segment is drawn and nothing is transmitted.
\<close>

theorem draw_without_socket_example:
  "sent (draw (MouseEv 20 20)
     \<lparr>isDrawing = True, lastPoint = Some \<lparr>x_pt = 10, y_pt = (10::int)\<rparr>,
      canvasRef = Some \<lparr>context2d = True, stroked = [], rect_left = 0, rect_top = 0\<rparr>,
      socket_wb = False, sent = [], console = []\<rparr>) = []"
  by (simp add: draw_def stroke_line_def)

text \<open>
  C9, amended. With an active stroke, an anchor and an event that gives a point: when the
  canvas has a 2D context, the segment from the anchor to the point is drawn on it and,
  when there is a socket, exactly one draw event is emitted, whose payload is that anchor
  and that point unchanged (without a socket nothing is emitted); when there is no canvas
  or no context, nothing is drawn or emitted; in both cases the anchor becomes the point
  and the stroke stays active. With no active stroke or no anchor, nothing changes.
\<close>

theorem draw_continues_stroke:
  "(isDrawing w \<and> lastPoint w = Some anchor \<and> getCoordinates (canvasRef w) e = Some point
      \<and> canvasRef w = Some canvas \<and> context2d canvas
     \<longrightarrow> canvasRef (draw e w)
           = Some (canvas\<lparr>stroked := stroked canvas @ [\<lparr>start = anchor, end_sg = point\<rparr>]\<rparr>)
       \<and> sent (draw e w)
           = (if socket_wb w then sent w @ [Draw \<lparr>start = anchor, end_sg = point\<rparr>]
              else sent w)
       \<and> lastPoint (draw e w) = Some point
       \<and> isDrawing (draw e w))
   \<and> (isDrawing w' \<and> lastPoint w' = Some anchor' \<and> getCoordinates (canvasRef w') e' = Some point'
      \<and> (case canvasRef w' of None \<Rightarrow> True | Some cv \<Rightarrow> \<not> context2d cv)
     \<longrightarrow> draw e' w' = w'\<lparr>lastPoint := Some point'\<rparr>)
   \<and> (\<not> isDrawing w'' \<or> lastPoint w'' = None \<longrightarrow> draw e'' w'' = w'')"
  by (auto simp add: draw_def stroke_line_def Let_def split: option.splits)

theorem draw_continues_stroke_witness:
  "sent (draw (MouseEv 20 20)
     \<lparr>isDrawing = True, lastPoint = Some \<lparr>x_pt = 10, y_pt = (10::int)\<rparr>,
      canvasRef = Some \<lparr>context2d = True, stroked = [], rect_left = 0, rect_top = 0\<rparr>,
      socket_wb = True, sent = [], console = []\<rparr>)
     = [Draw \<lparr>start = \<lparr>x_pt = 10, y_pt = 10\<rparr>, end_sg = \<lparr>x_pt = 20, y_pt = 20\<rparr>\<rparr>]
   \<and> lastPoint (draw (MouseEv 20 20)
     \<lparr>isDrawing = True, lastPoint = Some \<lparr>x_pt = 10, y_pt = (10::int)\<rparr>,
      canvasRef = Some \<lparr>context2d = True, stroked = [], rect_left = 0, rect_top = 0\<rparr>,
      socket_wb = True, sent = [], console = []\<rparr>) = Some \<lparr>x_pt = 20, y_pt = 20\<rparr>
   \<and> draw (MouseEv 20 20)
       \<lparr>isDrawing = True, lastPoint = Some \<lparr>x_pt = 10, y_pt = (10::int)\<rparr>,
        canvasRef = None, socket_wb = True, sent = [], console = []\<rparr>
     = \<lparr>isDrawing = True, lastPoint = Some \<lparr>x_pt = 20, y_pt = 20\<rparr>,
        canvasRef = None, socket_wb = True, sent = [], console = []\<rparr>
   \<and> draw (MouseEv 20 20)
       \<lparr>isDrawing = False, lastPoint = None,
        canvasRef = Some \<lparr>context2d = True, stroked = [], rect_left = 0, rect_top = (0::int)\<rparr>,
        socket_wb = True, sent = [], console = []\<rparr>
     = \<lparr>isDrawing = False, lastPoint = None,
        canvasRef = Some \<lparr>context2d = True, stroked = [], rect_left = 0, rect_top = 0\<rparr>,
        socket_wb = True, sent = [], console = []\<rparr>"
  using draw_continues_stroke [of
     "\<lparr>isDrawing = True, lastPoint = Some \<lparr>x_pt = 10, y_pt = (10::int)\<rparr>,
      canvasRef = Some \<lparr>context2d = True, stroked = [], rect_left = 0, rect_top = 0\<rparr>,
      socket_wb = True, sent = [], console = []\<rparr>"
     "\<lparr>x_pt = 10, y_pt = 10\<rparr>" "MouseEv 20 20" "\<lparr>x_pt = 20, y_pt = 20\<rparr>"
     "\<lparr>context2d = True, stroked = [], rect_left = 0, rect_top = 0\<rparr>"
     "\<lparr>isDrawing = True, lastPoint = Some \<lparr>x_pt = 10, y_pt = (10::int)\<rparr>,
        canvasRef = None, socket_wb = True, sent = [], console = []\<rparr>"
     "\<lparr>x_pt = 10, y_pt = 10\<rparr>" "MouseEv 20 20" "\<lparr>x_pt = 20, y_pt = 20\<rparr>"
     "\<lparr>isDrawing = False, lastPoint = None,
        canvasRef = Some \<lparr>context2d = True, stroked = [], rect_left = 0, rect_top = (0::int)\<rparr>,
        socket_wb = True, sent = [], console = []\<rparr>"
     "MouseEv 20 20"]
  by simp

text \<open>
  C10. Outside a provider (no enclosing provider, so the context is null) the accessor
  throws the error with the message "useGameState must be used within SocketProvider";
  inside a provider it returns the value of the nearest provider.
\<close>

theorem useGameState_throws_or_returns:
  "useGameState ([] :: 'c list) =
     Inl (Error ''useGameState must be used within SocketProvider'')
   \<and> useGameState (v # vs) = Inr v"
  by (simp add: useGameState_def useContext_def)

end
